theory Spec2Isabelle
  imports Main "HOL-Library.Word"
begin

section \<open>Data model (mailinglist/models.py)\<close>

text \<open>
  Primary keys are \<open>UUIDField(default=uuid.uuid4)\<close>: 128-bit values. The value drawn by
  \<open>uuid.uuid4\<close> for a new object is an input of the model, so a collision is a case
  of the model and not excluded by it. Time stamps are points on a discrete clock that
  the caller supplies; users of the authentication subsystem are opaque.
\<close>

type_synonym uuid = "128 word"
type_synonym datetime = nat
type_synonym user = nat

text \<open>
  The exceptions that the modelled code can raise: Python's \<open>AttributeError\<close> and
  \<open>ValueError\<close>, Django's \<open>DoesNotExist\<close>, \<open>IntegrityError\<close> (a violated unique
  or foreign-key constraint; the specification calls the unique case on Subscriber
  \<open>DuplicateSubscription\<close>), \<open>DatabaseError\<close> and \<open>Http404\<close>.
\<close>

datatype error =
  AttributeError | DoesNotExist | IntegrityError | ValueError | DatabaseError | Http404

record MailingList =
  ml_id :: uuid
  name :: string
  owner :: user

record Subscriber =
  sub_id :: uuid
  email :: string
  confirmed :: bool
  sub_mailing_list :: uuid

record Message =
  msg_id :: uuid
  msg_mailing_list :: uuid
  subject :: string
  body :: string
  started :: "datetime option"
  finished :: "datetime option"

record SubscriberMessage =
  sm_id :: uuid
  sm_message :: uuid
  sm_subscriber :: uuid
  created :: "datetime option"
  sent :: "datetime option"
  last_attempt :: "datetime option"

text \<open>
  The three Celery tasks of mailinglist/tasks.py. A job is a task with the id it was
  given to \<open>delay\<close>; the broker is the list of jobs in the order of their submission.
\<close>

datatype task =
  Send_confirmation_email_to_subscriber
  | Build_subscriber_messages_for_message
  | Send_subscriber_message

type_synonym job = "task \<times> uuid"

record store =
  mailinglist_rows :: "MailingList list"
  subscriber_rows :: "Subscriber list"
  message_rows :: "Message list"
  subscribermessage_rows :: "SubscriberMessage list"
  broker :: "job list"

definition empty_store :: store where
  "empty_store =
     \<lparr>mailinglist_rows = [], subscriber_rows = [], message_rows = [],
      subscribermessage_rows = [], broker = []\<rparr>"

definition delay :: "store \<Rightarrow> job \<Rightarrow> store" where
  "delay st j = st\<lparr>broker := broker st @ [j]\<rparr>"

section \<open>What the framework does on save, get and delete\<close>

text \<open>
  \<open>models.Model.save\<close> as the overriding \<open>save\<close> methods call it through
  \<open>super().save(...)\<close>, for a model whose primary key is always set (it has a default):
  \<^item> \<open>force_insert\<close> together with \<open>force_update\<close> raises \<open>ValueError\<close>;
  \<^item> without \<open>force_insert\<close>, an UPDATE of the row with this primary key is tried; it
    replaces the row when there is one, and the table's constraints are checked
    against the other rows;
  \<^item> when no row was updated, \<open>force_update\<close> raises \<open>DatabaseError\<close>; otherwise the
    row is INSERTed, which \<open>IntegrityError\<close> refuses when the primary key is taken or
    a constraint is violated. \<open>pre_insert\<close> is what the fields' \<open>pre_save\<close> does to
    the object on insert (\<open>auto_now_add\<close>).
  Every statement is committed on its own: nothing in the source opens a transaction.
  The arguments \<open>using\<close> and \<open>update_fields\<close> are \<open>None\<close> at every call in the
  source and are left out. This is Django's behaviour up to release 2.2; from 3.0 on, a new
  object whose key has a default is INSERTed without the UPDATE, which differs only
  when the id of a new object is already taken.
\<close>

definition Model_save ::
  "('r \<Rightarrow> uuid) \<Rightarrow> ('r list \<Rightarrow> 'r \<Rightarrow> bool) \<Rightarrow> ('r \<Rightarrow> 'r) \<Rightarrow>
   'r list \<Rightarrow> 'r \<Rightarrow> bool \<Rightarrow> bool \<Rightarrow> error + 'r list" where
  "Model_save pk constraints_ok pre_insert rows self force_insert force_update =
     (if force_insert \<and> force_update then Inl ValueError
      else if \<not> force_insert \<and> pk self \<in> set (map pk rows) then
        (if constraints_ok (filter (\<lambda>r. pk r \<noteq> pk self) rows) self
         then Inr (map (\<lambda>r. if pk r = pk self then self else r) rows)
         else Inl IntegrityError)
      else if force_update then Inl DatabaseError
      else if pk self \<in> set (map pk rows) \<or> \<not> constraints_ok rows self
        then Inl IntegrityError
      else Inr (rows @ [pre_insert self]))"

text \<open>\<open>Model.objects.get(id=...)\<close>: the row with this primary key, or \<open>DoesNotExist\<close>.\<close>

definition objects_get :: "('r \<Rightarrow> uuid) \<Rightarrow> 'r list \<Rightarrow> uuid \<Rightarrow> error + 'r" where
  "objects_get pk rows i =
     (case find (\<lambda>r. pk r = i) rows of None \<Rightarrow> Inl DoesNotExist | Some r \<Rightarrow> Inr r)"

section \<open>MailingList\<close>

text \<open>
  The owner is a reference into the authentication subsystem, which is not modelled:
  no constraint of the table is checked here.
\<close>

definition MailingList_save ::
  "store \<Rightarrow> MailingList \<Rightarrow> bool \<Rightarrow> bool \<Rightarrow> (error + unit) \<times> store" where
  "MailingList_save st self force_insert force_update =
     (case Model_save ml_id (\<lambda>others r. True) (\<lambda>r. r) (mailinglist_rows st) self
             force_insert force_update of
        Inl e \<Rightarrow> (Inl e, st)
      | Inr rows \<Rightarrow> (Inr (), st\<lparr>mailinglist_rows := rows\<rparr>))"

section \<open>Subscriber\<close>

text \<open>
  \<open>SubscriberManager.confirmed_subscribers_for_mailing_list\<close>: the queryset filtered by
  \<open>confirmed=True\<close>, then by the mailing list.
\<close>

definition confirmed_subscribers_for_mailing_list :: "store \<Rightarrow> uuid \<Rightarrow> Subscriber list" where
  "confirmed_subscribers_for_mailing_list st mailing_list =
     filter (\<lambda>s. sub_mailing_list s = mailing_list)
       (filter (\<lambda>s. confirmed s = True) (subscriber_rows st))"

text \<open>
  The methods that the class body of \<open>SubscriberManager\<close> defines, by name. Neither
  \<open>models.Manager\<close> nor the queryset methods it proxies add an attribute called
  \<open>send_confirmation_email\<close>: that is a method of the model \<open>Subscriber\<close>, not of its
  manager.
\<close>

definition SubscriberManager_methods :: "(string \<times> (store \<Rightarrow> uuid \<Rightarrow> Subscriber list)) list" where
  "SubscriberManager_methods =
     [(''confirmed_subscribers_for_mailing_list'', confirmed_subscribers_for_mailing_list)]"

text \<open>
  The constraints of the Subscriber table: the foreign key to MailingList and
  \<open>unique_together = ['email', 'mailing_list']\<close>.
\<close>

definition Subscriber_constraints :: "store \<Rightarrow> Subscriber list \<Rightarrow> Subscriber \<Rightarrow> bool" where
  "Subscriber_constraints st others self =
     (sub_mailing_list self \<in> set (map ml_id (mailinglist_rows st)) \<and>
      \<not> (\<exists>r \<in> set others. email r = email self \<and> sub_mailing_list r = sub_mailing_list self))"

definition send_confirmation_email :: "store \<Rightarrow> Subscriber \<Rightarrow> store" where
  "send_confirmation_email st self = delay st (Send_confirmation_email_to_subscriber, sub_id self)"

text \<open>
  \<open>Subscriber.save\<close>. \<open>adding\<close> is \<open>self._state.adding\<close>: true for an object built in
  Python and not saved yet, false for one loaded from the database or saved before.
  An exception of \<open>super().save\<close> leaves the method before the job is submitted.
\<close>

definition Subscriber_save ::
  "store \<Rightarrow> Subscriber \<Rightarrow> bool \<Rightarrow> bool \<Rightarrow> bool \<Rightarrow> (error + unit) \<times> store" where
  "Subscriber_save st self adding force_insert force_update =
     (let is_new = adding \<or> force_insert in
      case Model_save sub_id (Subscriber_constraints st) (\<lambda>r. r) (subscriber_rows st) self
             force_insert force_update of
        Inl e \<Rightarrow> (Inl e, st)
      | Inr rows \<Rightarrow>
          (let st1 = st\<lparr>subscriber_rows := rows\<rparr> in
           if is_new \<and> \<not> confirmed self then (Inr (), send_confirmation_email st1 self)
           else (Inr (), st1)))"

section \<open>Message\<close>

definition Message_constraints :: "store \<Rightarrow> Message list \<Rightarrow> Message \<Rightarrow> bool" where
  "Message_constraints st others self =
     (msg_mailing_list self \<in> set (map ml_id (mailinglist_rows st)))"

definition Message_save ::
  "store \<Rightarrow> Message \<Rightarrow> bool \<Rightarrow> bool \<Rightarrow> bool \<Rightarrow> (error + unit) \<times> store" where
  "Message_save st self adding force_insert force_update =
     (let is_new = adding \<or> force_insert in
      case Model_save msg_id (Message_constraints st) (\<lambda>r. r) (message_rows st) self
             force_insert force_update of
        Inl e \<Rightarrow> (Inl e, st)
      | Inr rows \<Rightarrow>
          (let st1 = st\<lparr>message_rows := rows\<rparr> in
           if is_new then (Inr (), delay st1 (Build_subscriber_messages_for_message, msg_id self))
           else (Inr (), st1)))"

section \<open>SubscriberMessage\<close>

text \<open>
  The table has two foreign keys and no \<open>Meta\<close> class: no uniqueness constraint
  besides the primary key.
\<close>

definition SubscriberMessage_constraints ::
  "store \<Rightarrow> SubscriberMessage list \<Rightarrow> SubscriberMessage \<Rightarrow> bool" where
  "SubscriberMessage_constraints st others self =
     (sm_message self \<in> set (map msg_id (message_rows st)) \<and>
      sm_subscriber self \<in> set (map sub_id (subscriber_rows st)))"

text \<open>
  \<open>SubscriberMessage.send\<close> submits \<open>tasks.send_confirmation_email_to_subscriber\<close> with
  the id of the SubscriberMessage.
\<close>

definition send :: "store \<Rightarrow> SubscriberMessage \<Rightarrow> store" where
  "send st self = delay st (Send_confirmation_email_to_subscriber, sm_id self)"

definition SubscriberMessage_save ::
  "store \<Rightarrow> datetime \<Rightarrow> SubscriberMessage \<Rightarrow> bool \<Rightarrow> bool \<Rightarrow> bool \<Rightarrow> (error + unit) \<times> store" where
  "SubscriberMessage_save st now self adding force_insert force_update =
     (let is_new = adding \<or> force_insert in
      case Model_save sm_id (SubscriberMessage_constraints st) (\<lambda>r. r\<lparr>created := Some now\<rparr>)
             (subscribermessage_rows st) self force_insert force_update of
        Inl e \<Rightarrow> (Inl e, st)
      | Inr rows \<Rightarrow>
          (let st1 = st\<lparr>subscribermessage_rows := rows\<rparr> in
           if is_new then (Inr (), send st1 self) else (Inr (), st1)))"

text \<open>
  \<open>Manager.create(message=..., subscriber=...)\<close>: builds the object, whose id is the
  value \<open>new_id\<close> drawn by \<open>uuid.uuid4\<close>, saves it with \<open>force_insert=True\<close> and
  returns it.
\<close>

definition SubscriberMessage_create ::
  "store \<Rightarrow> datetime \<Rightarrow> uuid \<Rightarrow> Message \<Rightarrow> Subscriber \<Rightarrow> (error + SubscriberMessage) \<times> store" where
  "SubscriberMessage_create st now new_id message subscriber =
     (let obj = \<lparr>sm_id = new_id, sm_message = msg_id message, sm_subscriber = sub_id subscriber,
                 created = None, sent = None, last_attempt = None\<rparr> in
      case SubscriberMessage_save st now obj True True False of
        (Inl e, st') \<Rightarrow> (Inl e, st')
      | (Inr u, st') \<Rightarrow> (Inr (obj\<lparr>created := Some now\<rparr>), st'))"

text \<open>
  The list comprehension of \<open>create_from_message\<close>: one \<open>create\<close> for each subscriber
  in turn, the \<open>k\<close>-th object of the run taking the id \<open>uuid4 k\<close>. An exception ends
  the comprehension; the rows created before it stay.
\<close>

fun create_each ::
  "store \<Rightarrow> datetime \<Rightarrow> (nat \<Rightarrow> uuid) \<Rightarrow> nat \<Rightarrow> Message \<Rightarrow> Subscriber list \<Rightarrow>
   (error + SubscriberMessage list) \<times> store" where
  "create_each st now uuid4 k message [] = (Inr [], st)"
| "create_each st now uuid4 k message (subscriber # rest) =
     (case SubscriberMessage_create st now (uuid4 k) message subscriber of
        (Inl e, st') \<Rightarrow> (Inl e, st')
      | (Inr obj, st') \<Rightarrow>
          (case create_each st' now uuid4 (Suc k) message rest of
             (Inl e, st'') \<Rightarrow> (Inl e, st'')
           | (Inr objs, st'') \<Rightarrow> (Inr (obj # objs), st'')))"

text \<open>
  \<open>SubscriberMessageManager.create_from_message\<close>. The source reads the attribute
  \<open>send_confirmation_email\<close> of the manager \<open>Subscriber.objects\<close> and calls it with the
  message's mailing list; an attribute that the manager does not have raises
  \<open>AttributeError\<close>.
\<close>

definition create_from_message ::
  "store \<Rightarrow> datetime \<Rightarrow> (nat \<Rightarrow> uuid) \<Rightarrow> Message \<Rightarrow> (error + SubscriberMessage list) \<times> store" where
  "create_from_message st now uuid4 message =
     (case map_of SubscriberManager_methods ''send_confirmation_email'' of
        None \<Rightarrow> (Inl AttributeError, st)
      | Some method \<Rightarrow>
          (let confirmed_subs = method st (msg_mailing_list message) in
           create_each st now uuid4 0 message confirmed_subs))"

section \<open>Tasks (mailinglist/tasks.py)\<close>

text \<open>
  The module \<open>emails\<close> is not part of the verified sources. The two sending tasks
  are modelled up to their call into it: the result is the object that the task hands
  over.
\<close>

definition send_confirmation_email_to_subscriber :: "store \<Rightarrow> uuid \<Rightarrow> error + Subscriber" where
  "send_confirmation_email_to_subscriber st subscriber_id =
     objects_get sub_id (subscriber_rows st) subscriber_id"

definition build_subscriber_messages_for_message ::
  "store \<Rightarrow> datetime \<Rightarrow> (nat \<Rightarrow> uuid) \<Rightarrow> uuid \<Rightarrow> (error + unit) \<times> store" where
  "build_subscriber_messages_for_message st now uuid4 message_id =
     (case objects_get msg_id (message_rows st) message_id of
        Inl e \<Rightarrow> (Inl e, st)
      | Inr message \<Rightarrow>
          (case create_from_message st now uuid4 message of
             (Inl e, st') \<Rightarrow> (Inl e, st')
           | (Inr objs, st') \<Rightarrow> (Inr (), st')))"

definition send_subscriber_message :: "store \<Rightarrow> uuid \<Rightarrow> error + SubscriberMessage" where
  "send_subscriber_message st subscriber_message_id =
     objects_get sm_id (subscribermessage_rows st) subscriber_message_id"

section \<open>Views that change the store (mailinglist/views.py)\<close>

text \<open>
  \<open>ConfirmSubscriptionView.get_object\<close>: the subscriber with this primary key (a 404
  when there is none) is marked confirmed and saved, with the default arguments of
  \<open>save\<close>. An object loaded from the database has \<open>_state.adding = False\<close>.
\<close>

definition ConfirmSubscriptionView_get_object ::
  "store \<Rightarrow> uuid \<Rightarrow> (error + Subscriber) \<times> store" where
  "ConfirmSubscriptionView_get_object st pk =
     (case objects_get sub_id (subscriber_rows st) pk of
        Inl e \<Rightarrow> (Inl Http404, st)
      | Inr loaded \<Rightarrow>
          (let subscriber = loaded\<lparr>confirmed := True\<rparr> in
           case Subscriber_save st subscriber False False False of
             (Inl e, st') \<Rightarrow> (Inl e, st')
           | (Inr u, st') \<Rightarrow> (Inr subscriber, st')))"

section \<open>Deleting: \<open>on_delete=models.CASCADE\<close>\<close>

text \<open>
  \<open>Model.delete\<close> collects the objects that reference the deleted one through a
  foreign key declared with \<open>on_delete=CASCADE\<close>, transitively, and deletes them with
  it. Subscriber and Message reference MailingList; SubscriberMessage references
  Message and Subscriber.
\<close>

definition SubscriberMessage_delete :: "store \<Rightarrow> uuid \<Rightarrow> store" where
  "SubscriberMessage_delete st pk =
     st\<lparr>subscribermessage_rows := filter (\<lambda>r. sm_id r \<noteq> pk) (subscribermessage_rows st)\<rparr>"

definition Subscriber_delete :: "store \<Rightarrow> uuid \<Rightarrow> store" where
  "Subscriber_delete st pk =
     st\<lparr>subscriber_rows := filter (\<lambda>s. sub_id s \<noteq> pk) (subscriber_rows st),
        subscribermessage_rows :=
          filter (\<lambda>r. sm_subscriber r \<noteq> pk) (subscribermessage_rows st)\<rparr>"

definition Message_delete :: "store \<Rightarrow> uuid \<Rightarrow> store" where
  "Message_delete st pk =
     st\<lparr>message_rows := filter (\<lambda>m. msg_id m \<noteq> pk) (message_rows st),
        subscribermessage_rows :=
          filter (\<lambda>r. sm_message r \<noteq> pk) (subscribermessage_rows st)\<rparr>"

definition MailingList_delete :: "store \<Rightarrow> uuid \<Rightarrow> store" where
  "MailingList_delete st pk =
     (let subs = filter (\<lambda>s. sub_mailing_list s = pk) (subscriber_rows st);
          msgs = filter (\<lambda>m. msg_mailing_list m = pk) (message_rows st)
      in st\<lparr>mailinglist_rows := filter (\<lambda>l. ml_id l \<noteq> pk) (mailinglist_rows st),
            subscriber_rows := filter (\<lambda>s. sub_mailing_list s \<noteq> pk) (subscriber_rows st),
            message_rows := filter (\<lambda>m. msg_mailing_list m \<noteq> pk) (message_rows st),
            subscribermessage_rows :=
              filter (\<lambda>r. sm_subscriber r \<notin> set (map sub_id subs) \<and>
                          sm_message r \<notin> set (map msg_id msgs))
                (subscribermessage_rows st)\<rparr>)"

section \<open>Sequences of operations\<close>

text \<open>
  The operations that write to the store: the four \<open>save\<close> methods with their
  arguments, the four cascading deletions, the confirmation view and the build task.
  An operation that raises leaves the store as it was when the exception occurred.
\<close>

datatype operation =
  Save_MailingList MailingList bool bool
  | Save_Subscriber Subscriber bool bool bool
  | Save_Message Message bool bool bool
  | Save_SubscriberMessage datetime SubscriberMessage bool bool bool
  | Confirm_Subscription uuid
  | Run_build_task datetime "nat \<Rightarrow> uuid" uuid
  | Delete_MailingList uuid
  | Delete_Subscriber uuid
  | Delete_Message uuid
  | Delete_SubscriberMessage uuid

fun apply_operation :: "store \<Rightarrow> operation \<Rightarrow> store" where
  "apply_operation st (Save_MailingList self fi fu) = snd (MailingList_save st self fi fu)"
| "apply_operation st (Save_Subscriber self adding fi fu) =
     snd (Subscriber_save st self adding fi fu)"
| "apply_operation st (Save_Message self adding fi fu) = snd (Message_save st self adding fi fu)"
| "apply_operation st (Save_SubscriberMessage now self adding fi fu) =
     snd (SubscriberMessage_save st now self adding fi fu)"
| "apply_operation st (Confirm_Subscription pk) = snd (ConfirmSubscriptionView_get_object st pk)"
| "apply_operation st (Run_build_task now uuid4 message_id) =
     snd (build_subscriber_messages_for_message st now uuid4 message_id)"
| "apply_operation st (Delete_MailingList pk) = MailingList_delete st pk"
| "apply_operation st (Delete_Subscriber pk) = Subscriber_delete st pk"
| "apply_operation st (Delete_Message pk) = Message_delete st pk"
| "apply_operation st (Delete_SubscriberMessage pk) = SubscriberMessage_delete st pk"

definition run :: "store \<Rightarrow> operation list \<Rightarrow> store" where
  "run st ops = foldl apply_operation st ops"

text \<open>
  Referential integrity: every foreign key of every row names a row that exists.
\<close>

definition referential_integrity :: "store \<Rightarrow> bool" where
  "referential_integrity st =
     ((\<forall>s \<in> set (subscriber_rows st). sub_mailing_list s \<in> set (map ml_id (mailinglist_rows st))) \<and>
      (\<forall>m \<in> set (message_rows st). msg_mailing_list m \<in> set (map ml_id (mailinglist_rows st))) \<and>
      (\<forall>r \<in> set (subscribermessage_rows st).
         sm_message r \<in> set (map msg_id (message_rows st)) \<and>
         sm_subscriber r \<in> set (map sub_id (subscriber_rows st))))"

text \<open>
  The constraints that the database enforces on every table: primary keys are unique,
  \<open>(email, mailing_list)\<close> is unique among the subscribers, and the foreign keys hold.
\<close>

definition unique_together :: "Subscriber list \<Rightarrow> bool" where
  "unique_together rows = distinct (map (\<lambda>r. (email r, sub_mailing_list r)) rows)"

definition primary_keys_unique :: "store \<Rightarrow> bool" where
  "primary_keys_unique st =
     (distinct (map ml_id (mailinglist_rows st)) \<and>
      distinct (map sub_id (subscriber_rows st)) \<and>
      distinct (map msg_id (message_rows st)) \<and>
      distinct (map sm_id (subscribermessage_rows st)))"

definition database_constraints :: "store \<Rightarrow> bool" where
  "database_constraints st =
     (primary_keys_unique st \<and> unique_together (subscriber_rows st) \<and> referential_integrity st)"

section \<open>Delivery dispatcher\<close>

text \<open>
  \<open>emails.send_subscriber_message\<close>, the function that the task
  \<open>send_subscriber_message\<close> hands the SubscriberMessage to, is not part of the
  verified sources, and with it everything that writes \<open>sent\<close> and \<open>last_attempt\<close>.
  The definitions of this section follow section 4.4 of the specification instead.
\<close>

text \<open>
  Modelled from the spec: the three-way outcome of the mail-sender capability,
  \<open>success | transientError | permanentError\<close> (section 6); the function that calls
  the mail sender is missing.
\<close>

datatype outcome = success | transientError | permanentError

text \<open>
  Modelled from the spec: the values of the derived status query, \<open>pending\<close>, \<open>sent\<close>
  and \<open>failed\<close>; the query is missing from the sources.
\<close>

datatype delivery_status = status_pending | status_sent | status_failed

text \<open>
  Modelled from the spec: a DeliveryRecord is a SubscriberMessage with the count of the
  attempts made on it, which the specification compares with the configured maximum;
  the sources have no such field. \<open>last_outcome\<close> remembers the outcome of the last
  attempt that was made.
\<close>

record DeliveryRecord = SubscriberMessage +
  attempts :: nat
  last_outcome :: "outcome option"

text \<open>
  Modelled from the spec: the derived status query, missing from the sources:
  \<open>pending\<close> (\<open>sent\<close> null, attempts below the maximum), \<open>sent\<close> (\<open>sent\<close> set),
  \<open>failed\<close> (\<open>sent\<close> null, attempts equal to the maximum).
\<close>

definition derived_status :: "nat \<Rightarrow> DeliveryRecord \<Rightarrow> delivery_status option" where
  "derived_status max_attempts r =
     (if sent r \<noteq> None then Some status_sent
      else if attempts r < max_attempts then Some status_pending
      else if attempts r = max_attempts then Some status_failed
      else None)"

text \<open>
  Modelled from the spec: one delivery attempt, the missing body of
  \<open>emails.send_subscriber_message\<close>. On success \<open>sent\<close> and \<open>last_attempt\<close> become the
  time of the attempt; on a transient failure \<open>last_attempt\<close> becomes the time of the
  attempt and the record is tried again until the bound on the attempts is reached; a
  permanent failure goes straight to \<open>failed\<close>; \<open>sent\<close> and \<open>failed\<close> are terminal, no
  attempt is made on such a record.
\<close>

definition attempt :: "nat \<Rightarrow> datetime \<Rightarrow> outcome \<Rightarrow> DeliveryRecord \<Rightarrow> DeliveryRecord" where
  "attempt max_attempts now out r =
     (if derived_status max_attempts r \<noteq> Some status_pending then r
      else case out of
        success \<Rightarrow>
          r\<lparr>sent := Some now, last_attempt := Some now, attempts := Suc (attempts r),
            last_outcome := Some success\<rparr>
      | transientError \<Rightarrow>
          r\<lparr>last_attempt := Some now, attempts := Suc (attempts r),
            last_outcome := Some transientError\<rparr>
      | permanentError \<Rightarrow>
          r\<lparr>last_attempt := Some now, attempts := max_attempts,
            last_outcome := Some permanentError\<rparr>)"

text \<open>
  Modelled from the spec: the attempts on one record, in the order in which the queue
  layer, which is missing, delivers the job again; each comes with its time and the
  answer of the mail sender.
\<close>

fun dispatch :: "nat \<Rightarrow> (datetime \<times> outcome) list \<Rightarrow> DeliveryRecord \<Rightarrow> DeliveryRecord" where
  "dispatch max_attempts [] r = r"
| "dispatch max_attempts ((now, out) # rest) r =
     dispatch max_attempts rest (attempt max_attempts now out r)"

text \<open>
  Modelled from the spec: a DeliveryRecord as fan-out creates it, with \<open>created\<close> set
  and \<open>sent\<close> and \<open>last_attempt\<close> null (the defaults of the model), never attempted; the
  attempt count is missing from the sources.
\<close>

definition queued :: "uuid \<Rightarrow> uuid \<Rightarrow> uuid \<Rightarrow> datetime \<Rightarrow> DeliveryRecord" where
  "queued i m s now =
     \<lparr>sm_id = i, sm_message = m, sm_subscriber = s, created = Some now, sent = None,
      last_attempt = None, attempts = 0, last_outcome = None\<rparr>"

section \<open>A small database\<close>

text \<open>
  One mailing list with a confirmed and an unconfirmed subscriber and one message,
  before any SubscriberMessage exists; and a third address that has not subscribed yet.
\<close>

definition list_L :: MailingList where
  "list_L = \<lparr>ml_id = 1, name = ''news'', owner = 1\<rparr>"

definition alice :: Subscriber where
  "alice = \<lparr>sub_id = 2, email = ''alice@example.org'', confirmed = True, sub_mailing_list = 1\<rparr>"

definition bob :: Subscriber where
  "bob = \<lparr>sub_id = 3, email = ''bob@example.org'', confirmed = False, sub_mailing_list = 1\<rparr>"

definition message_M :: Message where
  "message_M =
     \<lparr>msg_id = 4, msg_mailing_list = 1, subject = ''hello'', body = ''first issue'',
      started = None, finished = None\<rparr>"

definition example_store :: store where
  "example_store =
     \<lparr>mailinglist_rows = [list_L], subscriber_rows = [alice, bob], message_rows = [message_M],
      subscribermessage_rows = [], broker = []\<rparr>"

definition carol :: "bool \<Rightarrow> Subscriber" where
  "carol is_confirmed =
     \<lparr>sub_id = 7, email = ''carol@example.org'', confirmed = is_confirmed, sub_mailing_list = 1\<rparr>"

text \<open>
  Building the list, alice, the message and one SubscriberMessage for them from the
  empty database.
\<close>

definition example_operations :: "operation list" where
  "example_operations =
     [Save_MailingList list_L False False, Save_Subscriber alice True False False,
      Save_Message message_M True False False,
      Save_SubscriberMessage 0
        \<lparr>sm_id = 5, sm_message = 4, sm_subscriber = 2, created = None, sent = None,
         last_attempt = None\<rparr> True True False]"

section \<open>Referential integrity is kept by every operation\<close>

lemma Model_save_Inr_cases:
  assumes "Model_save pk c p rows self fi fu = Inr rows'"
  shows "(\<not> fi \<and> pk self \<in> set (map pk rows) \<and> c (filter (\<lambda>r. pk r \<noteq> pk self) rows) self \<and>
          rows' = map (\<lambda>r. if pk r = pk self then self else r) rows)
       \<or> (\<not> fu \<and> pk self \<notin> set (map pk rows) \<and> c rows self \<and> rows' = rows @ [p self])"
  using assms by (auto simp: Model_save_def split: if_splits)

lemma Model_save_all:
  assumes "Model_save pk c p rows self fi fu = Inr rows'"
    and "\<forall>r \<in> set rows. Q r"
    and "\<And>others. c others self \<Longrightarrow> Q self \<and> Q (p self)"
  shows "\<forall>r \<in> set rows'. Q r"
  using Model_save_Inr_cases[OF assms(1)] assms(2,3) by auto

lemma map_pk_replace:
  "map pk (map (\<lambda>r. if pk r = pk self then self else r) rows) = map pk rows"
  by (induction rows) auto

lemma Model_save_pks:
  assumes "Model_save pk c p rows self fi fu = Inr rows'"
    and "pk (p self) = pk self"
  shows "set (map pk rows') = insert (pk self) (set (map pk rows))"
proof -
  from Model_save_Inr_cases[OF assms(1)] show ?thesis
  proof (elim disjE conjE)
    assume mem: "pk self \<in> set (map pk rows)"
      and "rows' = map (\<lambda>r. if pk r = pk self then self else r) rows"
    then have "map pk rows' = map pk rows"
      by (simp only: map_pk_replace)
    then show ?thesis
      using mem by (simp only: insert_absorb)
  next
    assume "rows' = rows @ [p self]"
    then show ?thesis using assms(2) by simp
  qed
qed

lemma ri_MailingList_save:
  assumes "referential_integrity st"
  shows "referential_integrity (snd (MailingList_save st self fi fu))"
proof (cases "Model_save ml_id (\<lambda>others r. True) (\<lambda>r. r) (mailinglist_rows st) self fi fu")
  case (Inl e)
  then show ?thesis using assms by (simp add: MailingList_save_def)
next
  case (Inr rows)
  define st' where "st' = snd (MailingList_save st self fi fu)"
  have f: "mailinglist_rows st' = rows" "subscriber_rows st' = subscriber_rows st"
    "message_rows st' = message_rows st" "subscribermessage_rows st' = subscribermessage_rows st"
    using Inr by (simp_all add: st'_def MailingList_save_def)
  have pks: "set (map ml_id (mailinglist_rows st)) \<subseteq> set (map ml_id rows)"
    using Model_save_pks[OF Inr] by auto
  have "referential_integrity st'"
    unfolding referential_integrity_def f
    using assms[unfolded referential_integrity_def] pks by blast
  then show ?thesis by (simp add: st'_def)
qed

lemma ri_Subscriber_save:
  assumes "referential_integrity st"
  shows "referential_integrity (snd (Subscriber_save st self adding fi fu))"
proof (cases "Model_save sub_id (Subscriber_constraints st) (\<lambda>r. r) (subscriber_rows st) self fi fu")
  case (Inl e)
  then show ?thesis using assms by (simp add: Subscriber_save_def)
next
  case (Inr rows)
  define st' where "st' = snd (Subscriber_save st self adding fi fu)"
  have f: "mailinglist_rows st' = mailinglist_rows st" "subscriber_rows st' = rows"
    "message_rows st' = message_rows st" "subscribermessage_rows st' = subscribermessage_rows st"
    using Inr
    by (simp_all add: st'_def Subscriber_save_def send_confirmation_email_def delay_def Let_def)
  have pks: "set (map sub_id (subscriber_rows st)) \<subseteq> set (map sub_id rows)"
    using Model_save_pks[OF Inr] by auto
  have fk: "\<forall>s \<in> set rows. sub_mailing_list s \<in> set (map ml_id (mailinglist_rows st))"
    using Model_save_all[OF Inr, of "\<lambda>s. sub_mailing_list s \<in> set (map ml_id (mailinglist_rows st))"]
      assms by (simp add: referential_integrity_def Subscriber_constraints_def)
  have "referential_integrity st'"
    unfolding referential_integrity_def f
    using assms[unfolded referential_integrity_def] pks fk by blast
  then show ?thesis by (simp add: st'_def)
qed

lemma ri_Message_save:
  assumes "referential_integrity st"
  shows "referential_integrity (snd (Message_save st self adding fi fu))"
proof (cases "Model_save msg_id (Message_constraints st) (\<lambda>r. r) (message_rows st) self fi fu")
  case (Inl e)
  then show ?thesis using assms by (simp add: Message_save_def)
next
  case (Inr rows)
  define st' where "st' = snd (Message_save st self adding fi fu)"
  have f: "mailinglist_rows st' = mailinglist_rows st" "subscriber_rows st' = subscriber_rows st"
    "message_rows st' = rows" "subscribermessage_rows st' = subscribermessage_rows st"
    using Inr by (simp_all add: st'_def Message_save_def delay_def Let_def)
  have pks: "set (map msg_id (message_rows st)) \<subseteq> set (map msg_id rows)"
    using Model_save_pks[OF Inr] by auto
  have fk: "\<forall>m \<in> set rows. msg_mailing_list m \<in> set (map ml_id (mailinglist_rows st))"
    using Model_save_all[OF Inr, of "\<lambda>m. msg_mailing_list m \<in> set (map ml_id (mailinglist_rows st))"]
      assms by (simp add: referential_integrity_def Message_constraints_def)
  have "referential_integrity st'"
    unfolding referential_integrity_def f
    using assms[unfolded referential_integrity_def] pks fk by blast
  then show ?thesis by (simp add: st'_def)
qed

lemma ri_SubscriberMessage_save:
  assumes "referential_integrity st"
  shows "referential_integrity (snd (SubscriberMessage_save st now self adding fi fu))"
proof (cases "Model_save sm_id (SubscriberMessage_constraints st) (\<lambda>r. r\<lparr>created := Some now\<rparr>)
                (subscribermessage_rows st) self fi fu")
  case (Inl e)
  then show ?thesis using assms by (simp add: SubscriberMessage_save_def)
next
  case (Inr rows)
  define st' where "st' = snd (SubscriberMessage_save st now self adding fi fu)"
  have f: "mailinglist_rows st' = mailinglist_rows st" "subscriber_rows st' = subscriber_rows st"
    "message_rows st' = message_rows st" "subscribermessage_rows st' = rows"
    using Inr by (simp_all add: st'_def SubscriberMessage_save_def send_def delay_def Let_def)
  let ?Q = "\<lambda>r. sm_message r \<in> set (map msg_id (message_rows st)) \<and>
                 sm_subscriber r \<in> set (map sub_id (subscriber_rows st))"
  have old: "\<forall>r \<in> set (subscribermessage_rows st). ?Q r"
    using assms unfolding referential_integrity_def by blast
  have new: "?Q self \<and> ?Q (self\<lparr>created := Some now\<rparr>)"
    if "SubscriberMessage_constraints st others self" for others
    using that unfolding SubscriberMessage_constraints_def by simp
  have fk: "\<forall>r \<in> set rows. ?Q r"
    by (rule Model_save_all[OF Inr old new])
  have "referential_integrity st'"
    unfolding referential_integrity_def f
    using assms[unfolded referential_integrity_def] fk by blast
  then show ?thesis by (simp add: st'_def)
qed

lemma ri_SubscriberMessage_create:
  assumes "referential_integrity st"
  shows "referential_integrity (snd (SubscriberMessage_create st now new_id message subscriber))"
proof -
  define obj where "obj = \<lparr>sm_id = new_id, sm_message = msg_id message,
    sm_subscriber = sub_id subscriber, created = None, sent = None, last_attempt = None\<rparr>"
  obtain res st' where s: "SubscriberMessage_save st now obj True True False = (res, st')"
    by (cases "SubscriberMessage_save st now obj True True False")
  have "referential_integrity st'"
    using ri_SubscriberMessage_save[OF assms, of now obj True True False] s by simp
  moreover have "snd (SubscriberMessage_create st now new_id message subscriber) = st'"
    using s by (cases res) (simp_all add: SubscriberMessage_create_def obj_def)
  ultimately show ?thesis by simp
qed

lemma ri_create_each:
  "referential_integrity st \<Longrightarrow>
   referential_integrity (snd (create_each st now uuid4 k message subs))"
proof (induction subs arbitrary: st k)
  case Nil
  then show ?case by simp
next
  case (Cons subscriber rest)
  obtain res st' where c: "SubscriberMessage_create st now (uuid4 k) message subscriber = (res, st')"
    by (cases "SubscriberMessage_create st now (uuid4 k) message subscriber")
  have ri': "referential_integrity st'"
    using ri_SubscriberMessage_create[OF Cons.prems, of now "uuid4 k" message subscriber] c by simp
  show ?case
  proof (cases res)
    case (Inl e)
    then show ?thesis using c ri' by simp
  next
    case (Inr obj)
    obtain res2 st'' where r: "create_each st' now uuid4 (Suc k) message rest = (res2, st'')"
      by (cases "create_each st' now uuid4 (Suc k) message rest")
    have "referential_integrity st''"
      using Cons.IH[OF ri', of "Suc k"] r by simp
    moreover have "snd (create_each st now uuid4 k message (subscriber # rest)) = st''"
      using c Inr r by (cases res2) simp_all
    ultimately show ?thesis by simp
  qed
qed

lemma ri_create_from_message:
  "referential_integrity st \<Longrightarrow>
   referential_integrity (snd (create_from_message st now uuid4 message))"
  by (cases "map_of SubscriberManager_methods ''send_confirmation_email''")
     (simp_all add: create_from_message_def ri_create_each)

lemma ri_build:
  assumes "referential_integrity st"
  shows "referential_integrity (snd (build_subscriber_messages_for_message st now uuid4 message_id))"
proof (cases "objects_get msg_id (message_rows st) message_id")
  case (Inl e)
  then show ?thesis using assms by (simp add: build_subscriber_messages_for_message_def)
next
  case (Inr message)
  obtain res st' where c: "create_from_message st now uuid4 message = (res, st')"
    by (cases "create_from_message st now uuid4 message")
  have "referential_integrity st'"
    using ri_create_from_message[OF assms, of now uuid4 message] c by simp
  moreover have "snd (build_subscriber_messages_for_message st now uuid4 message_id) = st'"
    using Inr c by (cases res) (simp_all add: build_subscriber_messages_for_message_def)
  ultimately show ?thesis by simp
qed

lemma ri_Confirm:
  assumes "referential_integrity st"
  shows "referential_integrity (snd (ConfirmSubscriptionView_get_object st pk))"
proof (cases "objects_get sub_id (subscriber_rows st) pk")
  case (Inl e)
  then show ?thesis using assms by (simp add: ConfirmSubscriptionView_get_object_def)
next
  case (Inr loaded)
  obtain res st' where c:
    "Subscriber_save st (loaded\<lparr>confirmed := True\<rparr>) False False False = (res, st')"
    by (cases "Subscriber_save st (loaded\<lparr>confirmed := True\<rparr>) False False False")
  have "referential_integrity st'"
    using ri_Subscriber_save[OF assms, of "loaded\<lparr>confirmed := True\<rparr>" False False False] c
    by simp
  moreover have "snd (ConfirmSubscriptionView_get_object st pk) = st'"
    using Inr c by (cases res) (simp_all add: ConfirmSubscriptionView_get_object_def)
  ultimately show ?thesis by simp
qed

lemma ri_SubscriberMessage_delete:
  assumes "referential_integrity st"
  shows "referential_integrity (SubscriberMessage_delete st pk)"
  unfolding referential_integrity_def SubscriberMessage_delete_def
  using assms[unfolded referential_integrity_def] by simp

lemma ri_Subscriber_delete:
  assumes "referential_integrity st"
  shows "referential_integrity (Subscriber_delete st pk)"
proof -
  have r: "\<forall>r \<in> set (subscribermessage_rows st).
         sm_message r \<in> msg_id ` set (message_rows st) \<and>
         sm_subscriber r \<in> sub_id ` set (subscriber_rows st)"
    using assms by (simp add: referential_integrity_def)
  have "sm_subscriber x \<in> sub_id ` {s \<in> set (subscriber_rows st). sub_id s \<noteq> pk}"
    if "x \<in> set (subscribermessage_rows st)" "sm_subscriber x \<noteq> pk" for x
    using r that by (fastforce simp: image_iff)
  then show ?thesis
    using assms by (simp add: referential_integrity_def Subscriber_delete_def)
qed

lemma ri_Message_delete:
  assumes "referential_integrity st"
  shows "referential_integrity (Message_delete st pk)"
proof -
  have r: "\<forall>r \<in> set (subscribermessage_rows st).
         sm_message r \<in> msg_id ` set (message_rows st) \<and>
         sm_subscriber r \<in> sub_id ` set (subscriber_rows st)"
    using assms by (simp add: referential_integrity_def)
  have "sm_message x \<in> msg_id ` {m \<in> set (message_rows st). msg_id m \<noteq> pk}"
    if "x \<in> set (subscribermessage_rows st)" "sm_message x \<noteq> pk" for x
    using r that by (fastforce simp: image_iff)
  then show ?thesis
    using assms by (simp add: referential_integrity_def Message_delete_def)
qed

lemma ri_MailingList_delete:
  assumes "referential_integrity st"
  shows "referential_integrity (MailingList_delete st pk)"
proof -
  have s: "\<forall>s \<in> set (subscriber_rows st). sub_mailing_list s \<in> ml_id ` set (mailinglist_rows st)"
    and m: "\<forall>m \<in> set (message_rows st). msg_mailing_list m \<in> ml_id ` set (mailinglist_rows st)"
    and r: "\<forall>r \<in> set (subscribermessage_rows st).
         sm_message r \<in> msg_id ` set (message_rows st) \<and>
         sm_subscriber r \<in> sub_id ` set (subscriber_rows st)"
    using assms by (simp_all add: referential_integrity_def)
  have "sub_mailing_list x \<in> ml_id ` {l \<in> set (mailinglist_rows st). ml_id l \<noteq> pk}"
    if "x \<in> set (subscriber_rows st)" "sub_mailing_list x \<noteq> pk" for x
    using s that by (fastforce simp: image_iff)
  moreover have "msg_mailing_list x \<in> ml_id ` {l \<in> set (mailinglist_rows st). ml_id l \<noteq> pk}"
    if "x \<in> set (message_rows st)" "msg_mailing_list x \<noteq> pk" for x
    using m that by (fastforce simp: image_iff)
  moreover have "sm_message x \<in> msg_id ` {m \<in> set (message_rows st). msg_mailing_list m \<noteq> pk}"
    if "x \<in> set (subscribermessage_rows st)"
      "sm_message x \<notin> msg_id ` {m \<in> set (message_rows st). msg_mailing_list m = pk}" for x
    using r that by (fastforce simp: image_iff)
  moreover have "sm_subscriber x \<in> sub_id ` {s \<in> set (subscriber_rows st). sub_mailing_list s \<noteq> pk}"
    if "x \<in> set (subscribermessage_rows st)"
      "sm_subscriber x \<notin> sub_id ` {s \<in> set (subscriber_rows st). sub_mailing_list s = pk}" for x
    using r that by (fastforce simp: image_iff)
  ultimately show ?thesis
    by (simp add: referential_integrity_def MailingList_delete_def Let_def)
qed

lemma ri_apply_operation:
  "referential_integrity st \<Longrightarrow> referential_integrity (apply_operation st operation)"
  by (cases operation)
     (simp_all add: ri_MailingList_save ri_Subscriber_save ri_Message_save
        ri_SubscriberMessage_save ri_Confirm ri_build ri_SubscriberMessage_delete
        ri_Subscriber_delete ri_Message_delete ri_MailingList_delete)

lemma ri_run:
  "referential_integrity st \<Longrightarrow> referential_integrity (run st ops)"
  unfolding run_def
  by (induction ops arbitrary: st) (simp_all add: ri_apply_operation)

section \<open>Fan-out\<close>

lemmas example_defs = example_store_def list_L_def alice_def bob_def message_M_def carol_def

lemma create_from_message_AttributeError:
  "create_from_message st now uuid4 message = (Inl AttributeError, st)"
  by (simp add: create_from_message_def SubscriberManager_methods_def)

lemma build_job_result:
  "build_subscriber_messages_for_message st now uuid4 message_id =
     (case objects_get msg_id (message_rows st) message_id of
        Inl e \<Rightarrow> (Inl e, st) | Inr message \<Rightarrow> (Inl AttributeError, st))"
  by (simp add: build_subscriber_messages_for_message_def create_from_message_AttributeError
      split: sum.splits)

text \<open>
  What the comprehension does when it is reached: over any list of existing
  subscribers, with ids that are new, it creates one SubscriberMessage for each
  subscriber in turn; so it would over the queryset of the manager method that exists,
  \<open>confirmed_subscribers_for_mailing_list\<close>.
\<close>

lemma SubscriberMessage_create_fresh:
  assumes "new_id \<notin> set (map sm_id (subscribermessage_rows st))"
    and "msg_id message \<in> set (map msg_id (message_rows st))"
    and "sub_id subscriber \<in> set (map sub_id (subscriber_rows st))"
  shows "SubscriberMessage_create st now new_id message subscriber =
           (Inr \<lparr>sm_id = new_id, sm_message = msg_id message, sm_subscriber = sub_id subscriber,
                 created = Some now, sent = None, last_attempt = None\<rparr>,
            send (st\<lparr>subscribermessage_rows := subscribermessage_rows st @
                [\<lparr>sm_id = new_id, sm_message = msg_id message, sm_subscriber = sub_id subscriber,
                  created = Some now, sent = None, last_attempt = None\<rparr>]\<rparr>)
              \<lparr>sm_id = new_id, sm_message = msg_id message, sm_subscriber = sub_id subscriber,
                created = None, sent = None, last_attempt = None\<rparr>)"
  using assms
  by (simp add: SubscriberMessage_create_def SubscriberMessage_save_def Model_save_def
      SubscriberMessage_constraints_def)

lemma create_each_creates_all:
  assumes "msg_id message \<in> set (map msg_id (message_rows st))"
    and "set (map sub_id subs) \<subseteq> set (map sub_id (subscriber_rows st))"
    and "distinct (map uuid4 [k..<k + length subs])"
    and "set (map uuid4 [k..<k + length subs]) \<inter> set (map sm_id (subscribermessage_rows st)) = {}"
  shows "\<exists>objs. fst (create_each st now uuid4 k message subs) = Inr objs \<and>
           map sm_subscriber objs = map sub_id subs \<and>
           map sm_message objs = map (\<lambda>s. msg_id message) subs \<and>
           subscribermessage_rows (snd (create_each st now uuid4 k message subs)) =
             subscribermessage_rows st @ objs"
  using assms
proof (induction subs arbitrary: st k)
  case Nil
  then show ?case by simp
next
  case (Cons subscriber rest)
  let ?obj = "\<lparr>sm_id = uuid4 k, sm_message = msg_id message, sm_subscriber = sub_id subscriber,
                 created = Some now, sent = None, last_attempt = None\<rparr>"
  let ?st' = "send (st\<lparr>subscribermessage_rows := subscribermessage_rows st @ [?obj]\<rparr>)
              \<lparr>sm_id = uuid4 k, sm_message = msg_id message, sm_subscriber = sub_id subscriber,
                created = None, sent = None, last_attempt = None\<rparr>"
  have "k < k + length (subscriber # rest)" by simp
  from upt_conv_Cons[OF this]
  have upt: "[k..<k + length (subscriber # rest)] = k # [Suc k..<Suc k + length rest]"
    by (simp only: list.size add_Suc_right add_Suc add_0_right One_nat_def)
  have fresh: "uuid4 k \<notin> set (map sm_id (subscribermessage_rows st))"
    using Cons.prems(4) unfolding upt by auto
  have sub: "sub_id subscriber \<in> set (map sub_id (subscriber_rows st))"
    using Cons.prems(2) by simp
  have c: "SubscriberMessage_create st now (uuid4 k) message subscriber = (Inr ?obj, ?st')"
    by (rule SubscriberMessage_create_fresh[OF fresh Cons.prems(1) sub])
  have tabs: "message_rows ?st' = message_rows st" "subscriber_rows ?st' = subscriber_rows st"
    "subscribermessage_rows ?st' = subscribermessage_rows st @ [?obj]"
    by (simp_all add: send_def delay_def)
  have p1: "msg_id message \<in> set (map msg_id (message_rows ?st'))"
    using Cons.prems(1) by (simp only: tabs)
  have p2: "set (map sub_id rest) \<subseteq> set (map sub_id (subscriber_rows ?st'))"
    using Cons.prems(2) by (simp only: tabs) simp
  have p3: "distinct (map uuid4 [Suc k..<Suc k + length rest])"
    using Cons.prems(3) unfolding upt by simp
  have p4: "set (map uuid4 [Suc k..<Suc k + length rest]) \<inter>
              set (map sm_id (subscribermessage_rows ?st')) = {}"
    using Cons.prems(3,4) unfolding upt tabs by auto
  from Cons.IH[OF p1 p2 p3 p4] obtain objs where
    o: "fst (create_each ?st' now uuid4 (Suc k) message rest) = Inr objs"
      "map sm_subscriber objs = map sub_id rest"
      "map sm_message objs = map (\<lambda>s. msg_id message) rest"
      "subscribermessage_rows (snd (create_each ?st' now uuid4 (Suc k) message rest)) =
         subscribermessage_rows ?st' @ objs"
    by blast
  obtain st'' where r: "create_each ?st' now uuid4 (Suc k) message rest = (Inr objs, st'')"
    using o(1) by (cases "create_each ?st' now uuid4 (Suc k) message rest") simp
  have res: "create_each st now uuid4 k message (subscriber # rest) = (Inr (?obj # objs), st'')"
    using c r by simp
  have "subscribermessage_rows st'' = subscribermessage_rows st @ ?obj # objs"
    using o(4) r by (simp add: tabs)
  then show ?case
    using res o(2,3) by simp
qed


lemma create_each_over_confirmed_subscribers:
  assumes "msg_id message \<in> set (map msg_id (message_rows st))"
    and "subs = confirmed_subscribers_for_mailing_list st (msg_mailing_list message)"
    and "distinct (map uuid4 [0..<length subs])"
    and "set (map uuid4 [0..<length subs]) \<inter> set (map sm_id (subscribermessage_rows st)) = {}"
  shows "\<exists>objs. fst (create_each st now uuid4 0 message subs) = Inr objs \<and>
           length objs = length subs \<and>
           map sm_subscriber objs = map sub_id subs \<and>
           subscribermessage_rows (snd (create_each st now uuid4 0 message subs)) =
             subscribermessage_rows st @ objs"
proof -
  have sub: "set (map sub_id subs) \<subseteq> set (map sub_id (subscriber_rows st))"
    by (auto simp: assms(2) confirmed_subscribers_for_mailing_list_def)
  from create_each_creates_all[of message st subs uuid4 0 now] assms(1,3,4) sub
  obtain objs where o: "fst (create_each st now uuid4 0 message subs) = Inr objs"
    "map sm_subscriber objs = map sub_id subs"
    "subscribermessage_rows (snd (create_each st now uuid4 0 message subs)) =
       subscribermessage_rows st @ objs"
    by auto
  have "length objs = length subs"
    using o(2) by (metis length_map)
  then show ?thesis using o by blast
qed

text \<open>
  C1. The claim: for a message whose list has N confirmed subscribers, the build job
  creates exactly N SubscriberMessages, one for each confirmed subscriber. In the small
  database the list of the message has one confirmed subscriber, alice; the build job
  for the message raises \<open>AttributeError\<close> at the manager attribute that does not
  exist, before the comprehension, and no SubscriberMessage has been created.
\<close>

theorem build_job_raises_AttributeError:
  "build_subscriber_messages_for_message example_store now uuid4 (msg_id message_M) =
     (Inl AttributeError, example_store) \<and>
   confirmed_subscribers_for_mailing_list example_store (msg_mailing_list message_M) = [alice] \<and>
   subscribermessage_rows example_store = []"
  by (simp add: build_job_result objects_get_def confirmed_subscribers_for_mailing_list_def
      example_defs)

section \<open>The job that a new SubscriberMessage submits\<close>

text \<open>
  C6. The claim: creating a SubscriberMessage submits a message-delivery job with the
  id of the SubscriberMessage, not the confirmation job. Creating the SubscriberMessage
  5 for the message and alice in the small database stores the row and submits
  \<open>send_confirmation_email_to_subscriber\<close> with the id 5; run on the resulting store,
  that task looks for a subscriber 5 and raises \<open>DoesNotExist\<close>, while the task
  \<open>send_subscriber_message\<close>, which nothing submits, would find the row.
\<close>

theorem new_SubscriberMessage_submits_confirmation_job:
  "SubscriberMessage_create example_store now 5 message_M alice =
     (Inr \<lparr>sm_id = 5, sm_message = 4, sm_subscriber = 2, created = Some now, sent = None,
           last_attempt = None\<rparr>,
      example_store\<lparr>subscribermessage_rows :=
          [\<lparr>sm_id = 5, sm_message = 4, sm_subscriber = 2, created = Some now, sent = None,
            last_attempt = None\<rparr>],
        broker := [(Send_confirmation_email_to_subscriber, 5)]\<rparr>) \<and>
   send_confirmation_email_to_subscriber
     (snd (SubscriberMessage_create example_store now 5 message_M alice)) 5 = Inl DoesNotExist \<and>
   send_subscriber_message
     (snd (SubscriberMessage_create example_store now 5 message_M alice)) 5 =
     Inr \<lparr>sm_id = 5, sm_message = 4, sm_subscriber = 2, created = Some now, sent = None,
           last_attempt = None\<rparr>"
  by (simp add: SubscriberMessage_create_def SubscriberMessage_save_def Model_save_def
      SubscriberMessage_constraints_def send_def delay_def objects_get_def
      send_confirmation_email_to_subscriber_def send_subscriber_message_def example_defs)

section \<open>Cascading deletion\<close>

lemma ri_empty_store: "referential_integrity empty_store"
  by (simp add: referential_integrity_def empty_store_def)

text \<open>
  C9. Whatever operations built the database, the foreign keys hold in it, so no
  SubscriberMessage references a Subscriber or Message that is not there; and deleting
  the mailing list \<open>pk\<close> leaves no list, subscriber or message of that list, no
  SubscriberMessage of one of its subscribers or messages, and the foreign keys hold
  again.
\<close>

theorem MailingList_delete_cascades:
  assumes "st = run empty_store ops" and "st' = MailingList_delete st pk"
  shows "referential_integrity st \<and> referential_integrity st' \<and>
         pk \<notin> set (map ml_id (mailinglist_rows st')) \<and>
         pk \<notin> set (map sub_mailing_list (subscriber_rows st')) \<and>
         pk \<notin> set (map msg_mailing_list (message_rows st')) \<and>
         (\<forall>r \<in> set (subscribermessage_rows st').
            sm_subscriber r \<notin>
              set (map sub_id (filter (\<lambda>s. sub_mailing_list s = pk) (subscriber_rows st))) \<and>
            sm_message r \<notin>
              set (map msg_id (filter (\<lambda>m. msg_mailing_list m = pk) (message_rows st))))"
proof -
  have ri: "referential_integrity st"
    using assms(1) ri_run[OF ri_empty_store] by simp
  have ri': "referential_integrity st'"
    using assms(2) ri_MailingList_delete[OF ri] by simp
  have "pk \<notin> set (map ml_id (mailinglist_rows st'))"
    "pk \<notin> set (map sub_mailing_list (subscriber_rows st'))"
    "pk \<notin> set (map msg_mailing_list (message_rows st'))"
    by (auto simp: assms(2) MailingList_delete_def Let_def)
  moreover have "\<forall>r \<in> set (subscribermessage_rows st').
            sm_subscriber r \<notin>
              set (map sub_id (filter (\<lambda>s. sub_mailing_list s = pk) (subscriber_rows st))) \<and>
            sm_message r \<notin>
              set (map msg_id (filter (\<lambda>m. msg_mailing_list m = pk) (message_rows st)))"
    by (simp add: assms(2) MailingList_delete_def Let_def)
  ultimately show ?thesis using ri ri' by blast
qed

lemma run_example_operations:
  "run empty_store example_operations =
     \<lparr>mailinglist_rows = [list_L], subscriber_rows = [alice], message_rows = [message_M],
      subscribermessage_rows =
        [\<lparr>sm_id = 5, sm_message = 4, sm_subscriber = 2, created = Some 0, sent = None,
          last_attempt = None\<rparr>],
      broker = [(Build_subscriber_messages_for_message, 4),
                (Send_confirmation_email_to_subscriber, 5)]\<rparr>"
  by (simp add: example_operations_def run_def empty_store_def MailingList_save_def
      Subscriber_save_def Message_save_def SubscriberMessage_save_def Model_save_def
      Subscriber_constraints_def Message_constraints_def SubscriberMessage_constraints_def
      send_def delay_def send_confirmation_email_def example_defs)

theorem MailingList_delete_cascades_witness:
  "referential_integrity (run empty_store example_operations) \<and>
   subscribermessage_rows (run empty_store example_operations) \<noteq> [] \<and>
   referential_integrity (MailingList_delete (run empty_store example_operations) 1) \<and>
   mailinglist_rows (MailingList_delete (run empty_store example_operations) 1) = [] \<and>
   subscriber_rows (MailingList_delete (run empty_store example_operations) 1) = [] \<and>
   message_rows (MailingList_delete (run empty_store example_operations) 1) = [] \<and>
   subscribermessage_rows (MailingList_delete (run empty_store example_operations) 1) = []"
  using MailingList_delete_cascades[OF refl refl, of example_operations 1]
  by (simp add: run_example_operations MailingList_delete_def example_defs)

section \<open>The time stamps of a Message\<close>

lemma SubscriberMessage_save_other_tables:
  "mailinglist_rows (snd (SubscriberMessage_save st now self adding fi fu)) = mailinglist_rows st"
  "subscriber_rows (snd (SubscriberMessage_save st now self adding fi fu)) = subscriber_rows st"
  "message_rows (snd (SubscriberMessage_save st now self adding fi fu)) = message_rows st"
  by (simp_all add: SubscriberMessage_save_def send_def delay_def Let_def split: sum.splits)

lemma SubscriberMessage_create_snd:
  "snd (SubscriberMessage_create st now new_id message subscriber) =
   snd (SubscriberMessage_save st now
     \<lparr>sm_id = new_id, sm_message = msg_id message, sm_subscriber = sub_id subscriber,
      created = None, sent = None, last_attempt = None\<rparr> True True False)"
  by (simp add: SubscriberMessage_create_def Let_def split: prod.splits sum.splits)

lemma create_each_message_rows:
  "message_rows (snd (create_each st now uuid4 k message subs)) = message_rows st"
proof (induction subs arbitrary: st k)
  case Nil
  show ?case by simp
next
  case (Cons subscriber rest)
  obtain res st' where c: "SubscriberMessage_create st now (uuid4 k) message subscriber = (res, st')"
    by (cases "SubscriberMessage_create st now (uuid4 k) message subscriber")
  have m: "message_rows st' = message_rows st"
    using SubscriberMessage_create_snd[of st now "uuid4 k" message subscriber] c
    by (simp add: SubscriberMessage_save_other_tables)
  show ?case
  proof (cases res)
    case (Inl e)
    then show ?thesis using c m by simp
  next
    case (Inr obj)
    obtain res2 st'' where r: "create_each st' now uuid4 (Suc k) message rest = (res2, st'')"
      by (cases "create_each st' now uuid4 (Suc k) message rest")
    have "message_rows st'' = message_rows st'"
      using Cons.IH[of st' "Suc k"] r by simp
    moreover have "snd (create_each st now uuid4 k message (subscriber # rest)) = st''"
      using c Inr r by (cases res2) simp_all
    ultimately show ?thesis using m by simp
  qed
qed

lemma create_from_message_message_rows:
  "message_rows (snd (create_from_message st now uuid4 message)) = message_rows st"
  by (cases "map_of SubscriberManager_methods ''send_confirmation_email''")
     (simp_all add: create_from_message_def create_each_message_rows)

text \<open>
  C7, as the code has it. Nothing in the build task writes to a Message: whatever the
  task does, and also when the list has no confirmed subscriber, the Message rows
  after it are the rows before it, \<open>started\<close> and \<open>finished\<close> included.
\<close>

theorem build_job_leaves_messages_unchanged:
  "message_rows (snd (build_subscriber_messages_for_message st now uuid4 message_id)) =
   message_rows st"
proof (cases "objects_get msg_id (message_rows st) message_id")
  case (Inl e)
  then show ?thesis by (simp add: build_subscriber_messages_for_message_def)
next
  case (Inr message)
  obtain res st' where c: "create_from_message st now uuid4 message = (res, st')"
    by (cases "create_from_message st now uuid4 message")
  have "message_rows st' = message_rows st"
    using create_from_message_message_rows[of st now uuid4 message] c by simp
  moreover have "snd (build_subscriber_messages_for_message st now uuid4 message_id) = st'"
    using Inr c by (cases res) (simp_all add: build_subscriber_messages_for_message_def)
  ultimately show ?thesis by simp
qed

text \<open>
  C7 as claimed fails: with bob, who is not confirmed, as the only subscriber of the
  list, the build task for the message 4 leaves both \<open>started\<close> and \<open>finished\<close> of
  the message null.
\<close>

theorem build_job_sets_no_timestamp:
  "confirmed_subscribers_for_mailing_list (example_store\<lparr>subscriber_rows := [bob]\<rparr>) 1 = [] \<and>
   map (\<lambda>m. (msg_id m, started m, finished m))
     (message_rows (snd (build_subscriber_messages_for_message
        (example_store\<lparr>subscriber_rows := [bob]\<rparr>) 10 (\<lambda>k. 100 + of_nat k) 4))) =
   [(4, None, None)]"
  by (simp add: build_job_result objects_get_def confirmed_subscribers_for_mailing_list_def
      example_defs)

section \<open>The confirmation job\<close>

text \<open>
  C3 as claimed fails: carol, inserted with \<open>confirmed = True\<close>, is stored, and no job
  is submitted.
\<close>

theorem confirmed_insert_submits_nothing:
  "Subscriber_save example_store (carol True) True False False =
     (Inr (), example_store\<lparr>subscriber_rows := [alice, bob, carol True]\<rparr>) \<and>
   broker (snd (Subscriber_save example_store (carol True) True False False)) = []"
  by (simp add: Subscriber_save_def Model_save_def Subscriber_constraints_def example_defs)

text \<open>
  C3, as the code has it. Inserting a Subscriber (an object that is new, with an id no
  row has, its list existing and its address not yet on that list) stores the row and
  submits exactly one confirmation job with the subscriber's id when the subscriber is
  not confirmed, and none when it is.
\<close>

theorem Subscriber_insert_submits_confirmation:
  assumes "adding \<or> force_insert"
    and "sub_id self \<notin> set (map sub_id (subscriber_rows st))"
    and "Subscriber_constraints st (subscriber_rows st) self"
  shows "Subscriber_save st self adding force_insert False =
     (Inr (), st\<lparr>subscriber_rows := subscriber_rows st @ [self],
                 broker := broker st @
                   (if confirmed self then []
                    else [(Send_confirmation_email_to_subscriber, sub_id self)])\<rparr>)"
  using assms
  by (simp add: Subscriber_save_def Model_save_def send_confirmation_email_def delay_def)

theorem Subscriber_insert_submits_confirmation_witness:
  "Subscriber_save example_store (carol False) True False False =
     (Inr (), example_store\<lparr>subscriber_rows := [alice, bob, carol False],
        broker := [(Send_confirmation_email_to_subscriber, 7)]\<rparr>)"
  using Subscriber_insert_submits_confirmation[where adding = True and force_insert = False and self = "carol False" and st = example_store]
  by (simp add: Subscriber_constraints_def example_defs)

text \<open>
  C10. Saving a Subscriber that is already persisted (\<open>_state.adding\<close> false, no
  \<open>force_insert\<close>) submits no job, whatever its fields and whatever the outcome of the
  save; and whenever a save submits a job at all, the object was new to the code
  (\<open>adding\<close> or \<open>force_insert\<close>), not confirmed, and the save succeeded, and when its
  id was not in the table the save appended its row.
\<close>

theorem Subscriber_update_submits_nothing:
  "broker (snd (Subscriber_save st self False False force_update)) = broker st \<and>
   (broker (snd (Subscriber_save st self adding force_insert force_update)) \<noteq> broker st \<longrightarrow>
      (adding \<or> force_insert) \<and> \<not> confirmed self \<and>
      fst (Subscriber_save st self adding force_insert force_update) = Inr () \<and>
      (sub_id self \<notin> set (map sub_id (subscriber_rows st)) \<longrightarrow>
         subscriber_rows (snd (Subscriber_save st self adding force_insert force_update)) =
           subscriber_rows st @ [self]))"
proof -
  have a: "broker (snd (Subscriber_save st self False False force_update)) = broker st"
    by (simp add: Subscriber_save_def split: sum.splits)
  have b: "(adding \<or> force_insert) \<and> \<not> confirmed self \<and>
      fst (Subscriber_save st self adding force_insert force_update) = Inr ()"
    if "broker (snd (Subscriber_save st self adding force_insert force_update)) \<noteq> broker st"
    using that
    by (cases "Model_save sub_id (Subscriber_constraints st) (\<lambda>r. r)
        (subscriber_rows st) self force_insert force_update")
       (auto simp: Subscriber_save_def send_confirmation_email_def delay_def Let_def
        split: if_splits)
  have c: "subscriber_rows (snd (Subscriber_save st self adding force_insert force_update)) =
           subscriber_rows st @ [self]"
    if changed: "broker (snd (Subscriber_save st self adding force_insert force_update)) \<noteq> broker st"
      and fresh: "sub_id self \<notin> set (map sub_id (subscriber_rows st))"
  proof -
    obtain rows where ms: "Model_save sub_id (Subscriber_constraints st) (\<lambda>r. r)
        (subscriber_rows st) self force_insert force_update = Inr rows"
      using changed by (cases "Model_save sub_id (Subscriber_constraints st) (\<lambda>r. r)
        (subscriber_rows st) self force_insert force_update") (simp_all add: Subscriber_save_def)
    have "rows = subscriber_rows st @ [self]"
      using Model_save_Inr_cases[OF ms] fresh by auto
    then show ?thesis
      using ms by (simp add: Subscriber_save_def send_confirmation_email_def delay_def Let_def)
  qed
  show ?thesis using a b c by blast
qed

theorem Subscriber_update_submits_nothing_witness:
  "fst (Subscriber_save example_store (bob\<lparr>email := ''robert@example.org''\<rparr>) False False False)
     = Inr () \<and>
   broker (snd (Subscriber_save example_store (bob\<lparr>email := ''robert@example.org''\<rparr>)
     False False False)) = broker example_store \<and>
   broker (snd (Subscriber_save example_store (carol False) True False False)) \<noteq>
     broker example_store \<and>
   \<not> confirmed (carol False) \<and>
   subscriber_rows (snd (Subscriber_save example_store (carol False) True False False)) =
     [alice, bob, carol False]"
  using Subscriber_update_submits_nothing[where st = example_store and self = "carol False"
      and adding = True and force_insert = False and force_update = False]
    Subscriber_update_submits_nothing[where st = example_store
      and self = "bob\<lparr>email := ''robert@example.org''\<rparr>"
      and adding = False and force_insert = False and force_update = False]
  by (simp add: Subscriber_save_def Model_save_def Subscriber_constraints_def
      send_confirmation_email_def delay_def example_defs)

section \<open>The constraints of the database are kept by every operation\<close>

lemma Model_save_distinct:
  assumes "Model_save pk c p rows self fi fu = Inr rows'"
    and "pk (p self) = pk self" and "distinct (map pk rows)"
  shows "distinct (map pk rows')"
proof -
  from Model_save_Inr_cases[OF assms(1)] show ?thesis
  proof (elim disjE conjE)
    assume "rows' = map (\<lambda>r. if pk r = pk self then self else r) rows"
    then have "map pk rows' = map pk rows"
      by (simp only: map_pk_replace)
    then show ?thesis using assms(3) by simp
  next
    assume "pk self \<notin> set (map pk rows)" and "rows' = rows @ [p self]"
    then show ?thesis using assms(2,3) by simp
  qed
qed

lemma replace_keeps_distinct:
  assumes "distinct (map pk rows)" and "distinct (map g rows)"
    and "\<forall>r \<in> set rows. pk r \<noteq> pk self \<longrightarrow> g r \<noteq> g self"
  shows "distinct (map g (map (\<lambda>r. if pk r = pk self then self else r) rows))"
  using assms
proof (induction rows)
  case Nil
  show ?case by simp
next
  case (Cons x xs)
  have ih: "distinct (map g (map (\<lambda>r. if pk r = pk self then self else r) xs))"
    using Cons by simp
  show ?case
  proof (cases "pk x = pk self")
    case True
    then have "\<forall>r \<in> set xs. pk r \<noteq> pk self"
      using Cons.prems(1) by (auto simp: image_iff)
    then have same: "map (\<lambda>r. if pk r = pk self then self else r) xs = xs"
      by (simp add: map_idI)
    have "g self \<notin> g ` set xs"
      using Cons.prems(3) \<open>\<forall>r \<in> set xs. pk r \<noteq> pk self\<close> by (auto simp: image_iff)
    then show ?thesis using True same Cons.prems(2) by simp
  next
    case False
    have a: "g x \<noteq> g self" using Cons.prems(3) False by simp
    have b: "g x \<notin> g ` set xs" using Cons.prems(2) by simp
    have ne: "g x \<noteq> g (if pk y = pk self then self else y)" if "y \<in> set xs" for y
      using that a b by (cases "pk y = pk self") auto
    have "g x \<notin> set (map g (map (\<lambda>r. if pk r = pk self then self else r) xs))"
    proof
      assume "g x \<in> set (map g (map (\<lambda>r. if pk r = pk self then self else r) xs))"
      then obtain y where "y \<in> set xs" "g x = g (if pk y = pk self then self else y)"
        by (auto simp: image_iff)
      then show False using ne by blast
    qed
    then show ?thesis using False ih by simp
  qed
qed

lemma Subscriber_save_unique_together:
  assumes "Model_save sub_id (Subscriber_constraints st) (\<lambda>r. r) rows self fi fu = Inr rows'"
    and "distinct (map sub_id rows)" and "unique_together rows"
  shows "unique_together rows'"
proof -
  let ?g = "\<lambda>r. (email r, sub_mailing_list r)"
  from Model_save_Inr_cases[OF assms(1)] show ?thesis
  proof (elim disjE conjE)
    assume c: "Subscriber_constraints st (filter (\<lambda>r. sub_id r \<noteq> sub_id self) rows) self"
      and r: "rows' = map (\<lambda>r. if sub_id r = sub_id self then self else r) rows"
    have "\<forall>r \<in> set rows. sub_id r \<noteq> sub_id self \<longrightarrow> ?g r \<noteq> ?g self"
      using c by (auto simp: Subscriber_constraints_def)
    then show ?thesis
      unfolding unique_together_def r
      using replace_keeps_distinct[of sub_id rows ?g self] assms(2,3)
      by (simp add: unique_together_def)
  next
    assume c: "Subscriber_constraints st rows self" and r: "rows' = rows @ [self]"
    have "?g self \<notin> ?g ` set rows"
      using c by (auto simp: Subscriber_constraints_def)
    then show ?thesis using assms(3) by (simp add: unique_together_def r)
  qed
qed


lemma dc_MailingList_save:
  assumes "database_constraints st"
  shows "database_constraints (snd (MailingList_save st self fi fu))"
proof (cases "Model_save ml_id (\<lambda>others r. True) (\<lambda>r. r) (mailinglist_rows st) self fi fu")
  case (Inl e)
  then show ?thesis using assms by (simp add: MailingList_save_def)
next
  case (Inr rows)
  define st' where "st' = snd (MailingList_save st self fi fu)"
  have f: "mailinglist_rows st' = rows" "subscriber_rows st' = subscriber_rows st"
    "message_rows st' = message_rows st" "subscribermessage_rows st' = subscribermessage_rows st"
    using Inr by (simp_all add: st'_def MailingList_save_def)
  have "distinct (map ml_id rows)"
    using Model_save_distinct[OF Inr] assms
    by (simp add: database_constraints_def primary_keys_unique_def)
  moreover have "referential_integrity st'"
    using ri_MailingList_save[of st self fi fu] assms
    by (simp add: st'_def database_constraints_def)
  ultimately have "database_constraints st'"
    using assms by (simp add: database_constraints_def primary_keys_unique_def f)
  then show ?thesis by (simp add: st'_def)
qed

lemma dc_Subscriber_save:
  assumes "database_constraints st"
  shows "database_constraints (snd (Subscriber_save st self adding fi fu))"
proof (cases "Model_save sub_id (Subscriber_constraints st) (\<lambda>r. r) (subscriber_rows st) self fi fu")
  case (Inl e)
  then show ?thesis using assms by (simp add: Subscriber_save_def)
next
  case (Inr rows)
  define st' where "st' = snd (Subscriber_save st self adding fi fu)"
  have f: "mailinglist_rows st' = mailinglist_rows st" "subscriber_rows st' = rows"
    "message_rows st' = message_rows st" "subscribermessage_rows st' = subscribermessage_rows st"
    using Inr
    by (simp_all add: st'_def Subscriber_save_def send_confirmation_email_def delay_def Let_def)
  have d: "distinct (map sub_id (subscriber_rows st))" and u: "unique_together (subscriber_rows st)"
    using assms by (simp_all add: database_constraints_def primary_keys_unique_def)
  have "distinct (map sub_id rows)"
    using Model_save_distinct[OF Inr] d by simp
  moreover have "unique_together rows"
    by (rule Subscriber_save_unique_together[OF Inr d u])
  moreover have "referential_integrity st'"
    using ri_Subscriber_save[of st self adding fi fu] assms
    by (simp add: st'_def database_constraints_def)
  ultimately have "database_constraints st'"
    using assms by (simp add: database_constraints_def primary_keys_unique_def f)
  then show ?thesis by (simp add: st'_def)
qed

lemma dc_Message_save:
  assumes "database_constraints st"
  shows "database_constraints (snd (Message_save st self adding fi fu))"
proof (cases "Model_save msg_id (Message_constraints st) (\<lambda>r. r) (message_rows st) self fi fu")
  case (Inl e)
  then show ?thesis using assms by (simp add: Message_save_def)
next
  case (Inr rows)
  define st' where "st' = snd (Message_save st self adding fi fu)"
  have f: "mailinglist_rows st' = mailinglist_rows st" "subscriber_rows st' = subscriber_rows st"
    "message_rows st' = rows" "subscribermessage_rows st' = subscribermessage_rows st"
    using Inr by (simp_all add: st'_def Message_save_def delay_def Let_def)
  have "distinct (map msg_id rows)"
    using Model_save_distinct[OF Inr] assms
    by (simp add: database_constraints_def primary_keys_unique_def)
  moreover have "referential_integrity st'"
    using ri_Message_save[of st self adding fi fu] assms
    by (simp add: st'_def database_constraints_def)
  ultimately have "database_constraints st'"
    using assms by (simp add: database_constraints_def primary_keys_unique_def f)
  then show ?thesis by (simp add: st'_def)
qed

lemma dc_SubscriberMessage_save:
  assumes "database_constraints st"
  shows "database_constraints (snd (SubscriberMessage_save st now self adding fi fu))"
proof (cases "Model_save sm_id (SubscriberMessage_constraints st) (\<lambda>r. r\<lparr>created := Some now\<rparr>)
                (subscribermessage_rows st) self fi fu")
  case (Inl e)
  then show ?thesis using assms by (simp add: SubscriberMessage_save_def)
next
  case (Inr rows)
  define st' where "st' = snd (SubscriberMessage_save st now self adding fi fu)"
  have f: "mailinglist_rows st' = mailinglist_rows st" "subscriber_rows st' = subscriber_rows st"
    "message_rows st' = message_rows st" "subscribermessage_rows st' = rows"
    using Inr by (simp_all add: st'_def SubscriberMessage_save_def send_def delay_def Let_def)
  have "distinct (map sm_id rows)"
    using Model_save_distinct[OF Inr] assms
    by (simp add: database_constraints_def primary_keys_unique_def)
  moreover have "referential_integrity st'"
    using ri_SubscriberMessage_save[of st now self adding fi fu] assms
    by (simp add: st'_def database_constraints_def)
  ultimately have "database_constraints st'"
    using assms by (simp add: database_constraints_def primary_keys_unique_def f)
  then show ?thesis by (simp add: st'_def)
qed

lemma dc_create_each:
  "database_constraints st \<Longrightarrow>
   database_constraints (snd (create_each st now uuid4 k message subs))"
proof (induction subs arbitrary: st k)
  case Nil
  then show ?case by simp
next
  case (Cons subscriber rest)
  obtain res st' where c: "SubscriberMessage_create st now (uuid4 k) message subscriber = (res, st')"
    by (cases "SubscriberMessage_create st now (uuid4 k) message subscriber")
  have dc': "database_constraints st'"
    using SubscriberMessage_create_snd[of st now "uuid4 k" message subscriber] c
      dc_SubscriberMessage_save[OF Cons.prems] by simp
  show ?case
  proof (cases res)
    case (Inl e)
    then show ?thesis using c dc' by simp
  next
    case (Inr obj)
    obtain res2 st'' where r: "create_each st' now uuid4 (Suc k) message rest = (res2, st'')"
      by (cases "create_each st' now uuid4 (Suc k) message rest")
    have "database_constraints st''"
      using Cons.IH[OF dc', of "Suc k"] r by simp
    moreover have "snd (create_each st now uuid4 k message (subscriber # rest)) = st''"
      using c Inr r by (cases res2) simp_all
    ultimately show ?thesis by simp
  qed
qed

lemma dc_build:
  assumes "database_constraints st"
  shows "database_constraints (snd (build_subscriber_messages_for_message st now uuid4 message_id))"
proof (cases "objects_get msg_id (message_rows st) message_id")
  case (Inl e)
  then show ?thesis using assms by (simp add: build_subscriber_messages_for_message_def)
next
  case (Inr message)
  obtain res st' where c: "create_from_message st now uuid4 message = (res, st')"
    by (cases "create_from_message st now uuid4 message")
  have "database_constraints (snd (create_from_message st now uuid4 message))"
    by (cases "map_of SubscriberManager_methods ''send_confirmation_email''")
       (simp_all add: create_from_message_def dc_create_each assms)
  then have "database_constraints st'" using c by simp
  moreover have "snd (build_subscriber_messages_for_message st now uuid4 message_id) = st'"
    using Inr c by (cases res) (simp_all add: build_subscriber_messages_for_message_def)
  ultimately show ?thesis by simp
qed

lemma dc_Confirm:
  assumes "database_constraints st"
  shows "database_constraints (snd (ConfirmSubscriptionView_get_object st pk))"
proof (cases "objects_get sub_id (subscriber_rows st) pk")
  case (Inl e)
  then show ?thesis using assms by (simp add: ConfirmSubscriptionView_get_object_def)
next
  case (Inr loaded)
  obtain res st' where c:
    "Subscriber_save st (loaded\<lparr>confirmed := True\<rparr>) False False False = (res, st')"
    by (cases "Subscriber_save st (loaded\<lparr>confirmed := True\<rparr>) False False False")
  have "database_constraints st'"
    using dc_Subscriber_save[OF assms, of "loaded\<lparr>confirmed := True\<rparr>" False False False] c
    by simp
  moreover have "snd (ConfirmSubscriptionView_get_object st pk) = st'"
    using Inr c by (cases res) (simp_all add: ConfirmSubscriptionView_get_object_def)
  ultimately show ?thesis by simp
qed

lemma dc_deletes:
  assumes "database_constraints st"
  shows "database_constraints (SubscriberMessage_delete st pk)"
    and "database_constraints (Subscriber_delete st pk)"
    and "database_constraints (Message_delete st pk)"
    and "database_constraints (MailingList_delete st pk)"
proof -
  have k: "primary_keys_unique st" and u: "unique_together (subscriber_rows st)"
    and r: "referential_integrity st"
    using assms by (simp_all add: database_constraints_def)
  show "database_constraints (SubscriberMessage_delete st pk)"
    using k u ri_SubscriberMessage_delete[OF r, of pk]
    by (simp add: database_constraints_def primary_keys_unique_def SubscriberMessage_delete_def
        distinct_map_filter)
  show "database_constraints (Subscriber_delete st pk)"
    using k u ri_Subscriber_delete[OF r, of pk]
    by (simp add: database_constraints_def primary_keys_unique_def Subscriber_delete_def
        unique_together_def distinct_map_filter)
  show "database_constraints (Message_delete st pk)"
    using k u ri_Message_delete[OF r, of pk]
    by (simp add: database_constraints_def primary_keys_unique_def Message_delete_def
        distinct_map_filter)
  show "database_constraints (MailingList_delete st pk)"
    using k u ri_MailingList_delete[OF r, of pk]
    by (simp add: database_constraints_def primary_keys_unique_def MailingList_delete_def
        unique_together_def distinct_map_filter Let_def)
qed

lemma dc_apply_operation:
  "database_constraints st \<Longrightarrow> database_constraints (apply_operation st operation)"
  by (cases operation)
     (simp_all add: dc_MailingList_save dc_Subscriber_save dc_Message_save
        dc_SubscriberMessage_save dc_Confirm dc_build dc_deletes)

lemma dc_run:
  "database_constraints st \<Longrightarrow> database_constraints (run st ops)"
  unfolding run_def
  by (induction ops arbitrary: st) (simp_all add: dc_apply_operation)

lemma dc_empty_store: "database_constraints empty_store"
  by (simp add: database_constraints_def primary_keys_unique_def unique_together_def
      referential_integrity_def empty_store_def)

section \<open>Confirming a subscription\<close>

lemma find_Some_set: "find P xs = Some x \<Longrightarrow> x \<in> set xs \<and> P x"
  by (induction xs) (auto split: if_splits)

text \<open>
  C5. In a database that satisfies its constraints (every database built by the
  operations from the empty one does, by \<open>dc_run\<close> and \<open>dc_empty_store\<close>), the
  confirmation view on a subscriber that is already confirmed returns that subscriber
  without an error and leaves the whole store, the rows and the broker, as it was.
\<close>

theorem confirming_confirmed_changes_nothing:
  assumes dc: "database_constraints st"
    and get: "objects_get sub_id (subscriber_rows st) pk = Inr s"
    and conf: "confirmed s"
  shows "ConfirmSubscriptionView_get_object st pk = (Inr s, st)"
proof -
  let ?rows = "subscriber_rows st"
  have s_in: "s \<in> set ?rows" and s_pk: "sub_id s = pk"
    using get find_Some_set[of "\<lambda>r. sub_id r = pk" ?rows s]
    by (auto simp: objects_get_def split: option.splits)
  have same: "s\<lparr>confirmed := True\<rparr> = s"
    using conf by simp
  have d: "distinct (map sub_id ?rows)" and u: "distinct (map (\<lambda>r. (email r, sub_mailing_list r)) ?rows)"
    and fk: "sub_mailing_list s \<in> set (map ml_id (mailinglist_rows st))"
    using dc s_in
    by (auto simp: database_constraints_def primary_keys_unique_def unique_together_def
        referential_integrity_def)
  have inj_pk: "inj_on sub_id (set ?rows)" using d by (simp add: distinct_map)
  have inj_pair: "inj_on (\<lambda>r. (email r, sub_mailing_list r)) (set ?rows)"
    using u by (simp add: distinct_map)
  have others: "\<not> (\<exists>r \<in> set (filter (\<lambda>r. sub_id r \<noteq> sub_id s) ?rows).
                     email r = email s \<and> sub_mailing_list r = sub_mailing_list s)"
  proof
    assume "\<exists>r \<in> set (filter (\<lambda>r. sub_id r \<noteq> sub_id s) ?rows).
              email r = email s \<and> sub_mailing_list r = sub_mailing_list s"
    then obtain r where r: "r \<in> set ?rows" "sub_id r \<noteq> sub_id s"
      "(email r, sub_mailing_list r) = (email s, sub_mailing_list s)"
      by auto
    then have "r = s" using inj_pair s_in by (meson inj_onD)
    then show False using r(2) by simp
  qed
  have c: "Subscriber_constraints st (filter (\<lambda>r. sub_id r \<noteq> sub_id s) ?rows) s"
    unfolding Subscriber_constraints_def using fk others by blast
  have "\<forall>r \<in> set ?rows. (if sub_id r = sub_id s then s else r) = r"
    using inj_pk s_in by (auto dest: inj_onD)
  then have m: "map (\<lambda>r. if sub_id r = sub_id s then s else r) ?rows = ?rows"
    by (simp add: map_idI)
  have "sub_id s \<in> set (map sub_id ?rows)" using s_in by simp
  then have ms: "Model_save sub_id (Subscriber_constraints st) (\<lambda>r. r) ?rows s False False = Inr ?rows"
    using c m by (simp add: Model_save_def)
  have "Subscriber_save st s False False False = (Inr (), st)"
    by (simp add: Subscriber_save_def ms)
  then show ?thesis
    using get same by (simp add: ConfirmSubscriptionView_get_object_def)
qed

theorem confirming_confirmed_changes_nothing_witness:
  "ConfirmSubscriptionView_get_object example_store 2 = (Inr alice, example_store) \<and>
   confirmed alice"
proof -
  have "database_constraints example_store"
    by (simp add: database_constraints_def primary_keys_unique_def unique_together_def
        referential_integrity_def example_defs)
  moreover have "objects_get sub_id (subscriber_rows example_store) 2 = Inr alice"
    by (simp add: objects_get_def example_defs)
  moreover have "confirmed alice" by (simp add: alice_def)
  ultimately show ?thesis using confirming_confirmed_changes_nothing[of example_store 2 alice] by simp
qed

section \<open>Subscribing an address twice\<close>

text \<open>
  C4. After a Subscriber has been inserted, saving a second new Subscriber with the
  same address and mailing list (an object of its own: another id, or an insert that
  is forced) raises \<open>IntegrityError\<close>, the unique-constraint violation that the
  specification calls DuplicateSubscription; the store is unchanged, and exactly one
  Subscriber has that address on that list.
\<close>

theorem duplicate_Subscriber_rejected:
  assumes first: "Subscriber_save st s1 adding1 fi1 False = (Inr (), st1)"
    and fresh: "sub_id s1 \<notin> set (map sub_id (subscriber_rows st))"
    and same: "email s2 = email s1" "sub_mailing_list s2 = sub_mailing_list s1"
    and other: "sub_id s2 \<noteq> sub_id s1 \<or> fi2"
  shows "Subscriber_save st1 s2 adding2 fi2 False = (Inl IntegrityError, st1) \<and>
         length (filter (\<lambda>r. email r = email s1 \<and> sub_mailing_list r = sub_mailing_list s1)
                   (subscriber_rows st1)) = 1"
proof -
  let ?rows = "subscriber_rows st"
  let ?pair = "\<lambda>r. email r = email s1 \<and> sub_mailing_list r = sub_mailing_list s1"
  obtain rows where ms: "Model_save sub_id (Subscriber_constraints st) (\<lambda>r. r) ?rows s1 fi1 False = Inr rows"
    using first by (auto simp: Subscriber_save_def split: sum.splits)
  have rows: "rows = ?rows @ [s1]" and c: "Subscriber_constraints st ?rows s1"
    using Model_save_Inr_cases[OF ms] fresh by auto
  have st1: "subscriber_rows st1 = ?rows @ [s1]" "mailinglist_rows st1 = mailinglist_rows st"
    using first ms rows
    by (auto simp: Subscriber_save_def send_confirmation_email_def delay_def Let_def
        split: if_splits)
  have none: "filter ?pair ?rows = []"
    using c by (auto simp: Subscriber_constraints_def filter_empty_conv)
  have count: "length (filter ?pair (subscriber_rows st1)) = 1"
    by (simp add: st1 none)
  have in1: "s1 \<in> set (subscriber_rows st1)" by (simp add: st1)
  have viol: "\<not> Subscriber_constraints st1 (subscriber_rows st1) s2"
    using in1 same by (auto simp: Subscriber_constraints_def)
  have viol': "\<not> Subscriber_constraints st1 (filter (\<lambda>r. sub_id r \<noteq> sub_id s2) (subscriber_rows st1)) s2"
    if "sub_id s2 \<noteq> sub_id s1"
    using in1 same that by (auto simp: Subscriber_constraints_def)
  have "Model_save sub_id (Subscriber_constraints st1) (\<lambda>r. r) (subscriber_rows st1) s2 fi2 False
          = Inl IntegrityError"
    using viol viol' other by (auto simp: Model_save_def)
  then have "Subscriber_save st1 s2 adding2 fi2 False = (Inl IntegrityError, st1)"
    by (simp add: Subscriber_save_def)
  then show ?thesis using count by simp
qed

theorem duplicate_Subscriber_rejected_witness:
  "Subscriber_save example_store (carol False) True False False =
     (Inr (), example_store\<lparr>subscriber_rows := [alice, bob, carol False],
        broker := [(Send_confirmation_email_to_subscriber, 7)]\<rparr>) \<and>
   Subscriber_save
     (example_store\<lparr>subscriber_rows := [alice, bob, carol False],
        broker := [(Send_confirmation_email_to_subscriber, 7)]\<rparr>)
     (carol True\<lparr>sub_id := 8\<rparr>) True False False =
     (Inl IntegrityError,
      example_store\<lparr>subscriber_rows := [alice, bob, carol False],
        broker := [(Send_confirmation_email_to_subscriber, 7)]\<rparr>) \<and>
   length (filter (\<lambda>r. email r = ''carol@example.org'' \<and> sub_mailing_list r = 1)
     [alice, bob, carol False]) = 1"
proof -
  have first: "Subscriber_save example_store (carol False) True False False =
     (Inr (), example_store\<lparr>subscriber_rows := [alice, bob, carol False],
        broker := [(Send_confirmation_email_to_subscriber, 7)]\<rparr>)"
    by (simp add: Subscriber_save_def Model_save_def Subscriber_constraints_def
        send_confirmation_email_def delay_def example_defs)
  have fresh: "sub_id (carol False) \<notin> set (map sub_id (subscriber_rows example_store))"
    by (simp add: example_defs)
  show ?thesis
    using first duplicate_Subscriber_rejected[OF first fresh, of "carol True\<lparr>sub_id := 8\<rparr>" False True]
    by (simp add: example_defs)
qed

section \<open>Several SubscriberMessages for one message and subscriber\<close>

text \<open>
  C2 as claimed fails: a second SubscriberMessage for the same message and the same
  subscriber is accepted, and two rows for the pair exist afterwards.
\<close>

theorem second_SubscriberMessage_for_pair_accepted:
  "fst (SubscriberMessage_create
         (snd (SubscriberMessage_create example_store 0 5 message_M alice)) 0 6 message_M alice) =
     Inr \<lparr>sm_id = 6, sm_message = 4, sm_subscriber = 2, created = Some 0, sent = None,
           last_attempt = None\<rparr> \<and>
   map (\<lambda>r. (sm_id r, sm_message r, sm_subscriber r))
     (subscribermessage_rows (snd (SubscriberMessage_create
         (snd (SubscriberMessage_create example_store 0 5 message_M alice)) 0 6 message_M alice))) =
     [(5, 4, 2), (6, 4, 2)]"
  by (simp add: SubscriberMessage_create_def SubscriberMessage_save_def Model_save_def
      SubscriberMessage_constraints_def send_def delay_def example_defs)

text \<open>
  C2, as the code has it. Only the primary key of a SubscriberMessage is unique: a
  \<open>create\<close> with an id that no row has, for a message and a subscriber that exist,
  succeeds and appends one row, so the number of rows for that message and subscriber
  grows by one with every \<open>create\<close>.
\<close>

theorem SubscriberMessage_create_adds_one:
  assumes "new_id \<notin> set (map sm_id (subscribermessage_rows st))"
    and "msg_id message \<in> set (map msg_id (message_rows st))"
    and "sub_id subscriber \<in> set (map sub_id (subscriber_rows st))"
  shows "fst (SubscriberMessage_create st now new_id message subscriber) =
           Inr \<lparr>sm_id = new_id, sm_message = msg_id message, sm_subscriber = sub_id subscriber,
                 created = Some now, sent = None, last_attempt = None\<rparr> \<and>
         subscribermessage_rows (snd (SubscriberMessage_create st now new_id message subscriber)) =
           subscribermessage_rows st @
             [\<lparr>sm_id = new_id, sm_message = msg_id message, sm_subscriber = sub_id subscriber,
                created = Some now, sent = None, last_attempt = None\<rparr>] \<and>
         length (filter (\<lambda>r. sm_message r = msg_id message \<and> sm_subscriber r = sub_id subscriber)
           (subscribermessage_rows (snd (SubscriberMessage_create st now new_id message subscriber)))) =
         Suc (length (filter (\<lambda>r. sm_message r = msg_id message \<and> sm_subscriber r = sub_id subscriber)
           (subscribermessage_rows st)))"
  using assms
  by (simp add: SubscriberMessage_create_def SubscriberMessage_save_def Model_save_def
      SubscriberMessage_constraints_def send_def delay_def)

theorem SubscriberMessage_create_adds_one_witness:
  "length (filter (\<lambda>r. sm_message r = 4 \<and> sm_subscriber r = 2)
     (subscribermessage_rows (snd (SubscriberMessage_create
        (snd (SubscriberMessage_create example_store 0 5 message_M alice)) 0 6 message_M alice)))) = 2"
proof -
  let ?st1 = "snd (SubscriberMessage_create example_store 0 5 message_M alice)"
  have st1: "subscribermessage_rows ?st1 =
      [\<lparr>sm_id = 5, sm_message = 4, sm_subscriber = 2, created = Some 0, sent = None,
        last_attempt = None\<rparr>]"
    "message_rows ?st1 = [message_M]" "subscriber_rows ?st1 = [alice, bob]"
    by (simp_all add: SubscriberMessage_create_def SubscriberMessage_save_def Model_save_def
      SubscriberMessage_constraints_def send_def delay_def example_defs)
  have ids: "msg_id message_M = 4" "sub_id alice = 2"
    by (simp_all add: example_defs)
  have "6 \<notin> set (map sm_id (subscribermessage_rows ?st1))"
    "msg_id message_M \<in> set (map msg_id (message_rows ?st1))"
    "sub_id alice \<in> set (map sub_id (subscriber_rows ?st1))"
    by (simp_all add: st1)
  from SubscriberMessage_create_adds_one[OF this, of 0] show ?thesis
    by (simp only: ids st1) simp
qed

section \<open>The time stamps of a DeliveryRecord\<close>

lemma attempt_sent_iff:
  assumes "sent r \<noteq> None \<longleftrightarrow> last_outcome r = Some success"
  shows "sent (attempt max_attempts now out r) \<noteq> None \<longleftrightarrow>
         last_outcome (attempt max_attempts now out r) = Some success"
proof (cases "derived_status max_attempts r = Some status_pending")
  case False
  then show ?thesis using assms by (simp add: attempt_def)
next
  case True
  then have "sent r = None"
    by (auto simp: derived_status_def split: if_splits)
  then show ?thesis
    using True by (cases out) (simp_all add: attempt_def)
qed

lemma attempt_bounded:
  assumes "attempts r \<le> max_attempts"
  shows "attempts (attempt max_attempts now out r) \<le> max_attempts"
proof (cases "derived_status max_attempts r = Some status_pending")
  case False
  then show ?thesis using assms by (simp add: attempt_def)
next
  case True
  then have "attempts r < max_attempts"
    by (auto simp: derived_status_def split: if_splits)
  then show ?thesis
    using True by (cases out) (simp_all add: attempt_def)
qed

lemma dispatch_invariant:
  assumes "sent r \<noteq> None \<longleftrightarrow> last_outcome r = Some success"
    and "attempts r \<le> max_attempts"
  shows "(sent (dispatch max_attempts outcomes r) \<noteq> None \<longleftrightarrow>
          last_outcome (dispatch max_attempts outcomes r) = Some success) \<and>
         attempts (dispatch max_attempts outcomes r) \<le> max_attempts"
  using assms
proof (induction outcomes arbitrary: r)
  case Nil
  then show ?case by simp
next
  case (Cons a outcomes)
  obtain now out where a: "a = (now, out)" by (cases a)
  show ?case
    unfolding a dispatch.simps
    by (rule Cons.IH[OF attempt_sent_iff[OF Cons.prems(1)] attempt_bounded[OF Cons.prems(2)]])
qed

text \<open>
  C8, on the dispatcher of the specification. Whatever attempts have been made on a
  record since fan-out created it: \<open>sent\<close> is set exactly when the last attempt made
  succeeded; the record has a derived status; in status \<open>failed\<close> its attempt count is
  the configured maximum and \<open>sent\<close> is null; and a further attempt that succeeds, made
  while the record is pending, sets both \<open>sent\<close> and \<open>last_attempt\<close> to its time.
\<close>

theorem sent_iff_last_attempt_succeeded:
  "(sent (dispatch max_attempts outcomes (queued i m s t0)) \<noteq> None \<longleftrightarrow>
      last_outcome (dispatch max_attempts outcomes (queued i m s t0)) = Some success) \<and>
   derived_status max_attempts (dispatch max_attempts outcomes (queued i m s t0)) \<noteq> None \<and>
   (derived_status max_attempts (dispatch max_attempts outcomes (queued i m s t0)) =
      Some status_failed \<longrightarrow>
      attempts (dispatch max_attempts outcomes (queued i m s t0)) = max_attempts \<and>
      sent (dispatch max_attempts outcomes (queued i m s t0)) = None) \<and>
   (derived_status max_attempts (dispatch max_attempts outcomes (queued i m s t0)) =
      Some status_pending \<longrightarrow>
      sent (dispatch max_attempts (outcomes @ [(now, success)]) (queued i m s t0)) = Some now \<and>
      last_attempt (dispatch max_attempts (outcomes @ [(now, success)]) (queued i m s t0)) =
        Some now)"
proof -
  let ?r = "dispatch max_attempts outcomes (queued i m s t0)"
  have inv: "(sent ?r \<noteq> None \<longleftrightarrow> last_outcome ?r = Some success) \<and> attempts ?r \<le> max_attempts"
    by (rule dispatch_invariant) (simp_all add: queued_def)
  have app: "dispatch max_attempts (outcomes @ [(now, success)]) r =
             attempt max_attempts now success (dispatch max_attempts outcomes r)" for r
    by (induction outcomes arbitrary: r) auto
  have st: "derived_status max_attempts ?r \<noteq> None"
    using inv by (auto simp: derived_status_def)
  have failed: "derived_status max_attempts ?r = Some status_failed \<longrightarrow>
      attempts ?r = max_attempts \<and> sent ?r = None"
    by (auto simp: derived_status_def split: if_splits)
  have ok: "derived_status max_attempts ?r = Some status_pending \<longrightarrow>
      sent (attempt max_attempts now success ?r) = Some now \<and>
      last_attempt (attempt max_attempts now success ?r) = Some now"
    by (simp add: attempt_def)
  show ?thesis
    using inv st failed ok unfolding app by blast
qed

theorem sent_iff_last_attempt_succeeded_witness:
  "sent (dispatch 5 [(1, transientError), (2, transientError), (3, transientError), (4, success)]
          (queued 5 4 2 0)) = Some 4 \<and>
   last_attempt (dispatch 5 [(1, transientError), (2, transientError), (3, transientError),
          (4, success)] (queued 5 4 2 0)) = Some 4 \<and>
   derived_status 5 (dispatch 5 [(1, transientError), (2, transientError), (3, transientError)]
          (queued 5 4 2 0)) = Some status_pending \<and>
   derived_status 5 (dispatch 5 [(1, permanentError), (2, success)] (queued 5 4 2 0)) =
     Some status_failed \<and>
   attempts (dispatch 5 [(1, permanentError), (2, success)] (queued 5 4 2 0)) = 5 \<and>
   sent (dispatch 5 [(1, permanentError), (2, success)] (queued 5 4 2 0)) = None"
  using sent_iff_last_attempt_succeeded[of 5 "[(1, transientError), (2, transientError), (3, transientError)]" 5 4 2 0 4]
    sent_iff_last_attempt_succeeded[of 5 "[(1, permanentError), (2, success)]" 5 4 2 0 4]
  by (simp add: attempt_def derived_status_def queued_def)

end
